theory Spec2Isabelle
  imports Complex_Main "HOL-Library.Log_Nat"
begin

section \<open>Strings and numbers of the source language\<close>

text \<open>
  A source string is a sequence of UTF-16 code units; \<open>length\<close> counts code units, as
  the \<open>.length\<close> property of the source does. Literals are written \<open>str ''...''\<close>.

  The subtitle functions below are polymorphic in the type \<open>'n\<close> of numbers and use
  only \<open>0\<close>, \<open>+\<close>, \<open>-\<close> and \<open>\<le>\<close> on it, as the source does. Theorems that
  need no law of arithmetic hold for every interpretation of these operations, rounding
  ones included; theorems that need exact arithmetic say so in the sort of \<open>'n\<close>.
\<close>

type_synonym jsstring = "nat list"

definition str :: "string \<Rightarrow> jsstring" where
  "str s = map of_char s"

section \<open>subtitles/subtitleUtils.ts\<close>

subsection \<open>Data\<close>

record 'n SubtitleEntry =
  episodeId :: jsstring
  index :: nat
  startTime :: 'n
  endTime :: 'n
  text' :: jsstring

record 'n ClipDefinition =
  episodeId :: jsstring
  videoPath :: jsstring
  startTime :: 'n
  endTime :: 'n
  order :: nat

record 'n RemappedSubtitle =
  index :: nat
  startTime :: 'n
  endTime :: 'n
  text' :: jsstring
  originalEpisodeId :: jsstring
  originalStartTime :: 'n

text \<open>The three local variables of \<open>remapSubtitlesToClips\<close> that its loops update.\<close>

record 'n RemapState =
  remapped :: "'n RemappedSubtitle list"
  currentOffset :: 'n
  index :: nat

subsection \<open>remapSubtitlesToClips\<close>

text \<open>\<open>episodeSubtitles.get(clip.episodeId) ?? []\<close>\<close>

definition entriesOf ::
  "(jsstring \<rightharpoonup> 'n SubtitleEntry list) \<Rightarrow> 'n ClipDefinition \<Rightarrow> 'n SubtitleEntry list" where
  "entriesOf episodeSubtitles clip =
     (case episodeSubtitles (ClipDefinition.episodeId clip) of
        Some entries \<Rightarrow> entries
      | None \<Rightarrow> [])"

text \<open>The body of the inner loop: one \<open>remapped.push\<close> and \<open>index++\<close>.\<close>

definition pushSubtitle ::
  "'n::{zero,plus,minus,ord} ClipDefinition \<Rightarrow> 'n RemapState \<Rightarrow> 'n SubtitleEntry \<Rightarrow> 'n RemapState" where
  "pushSubtitle clip st subtitle =
     (let newStartTime =
            currentOffset st + (SubtitleEntry.startTime subtitle - ClipDefinition.startTime clip);
          newEndTime =
            currentOffset st + (SubtitleEntry.endTime subtitle - ClipDefinition.startTime clip)
      in st\<lparr>remapped := remapped st @
              [\<lparr>RemappedSubtitle.index = RemapState.index st,
                RemappedSubtitle.startTime = newStartTime,
                RemappedSubtitle.endTime = newEndTime,
                RemappedSubtitle.text' = SubtitleEntry.text' subtitle,
                originalEpisodeId = ClipDefinition.episodeId clip,
                originalStartTime = SubtitleEntry.startTime subtitle\<rparr>],
            RemapState.index := Suc (RemapState.index st)\<rparr>)"

text \<open>The body of the outer loop: filter, inner loop, advance the offset.\<close>

definition remapClip ::
  "(jsstring \<rightharpoonup> 'n SubtitleEntry list) \<Rightarrow> 'n::{zero,plus,minus,ord} RemapState
     \<Rightarrow> 'n ClipDefinition \<Rightarrow> 'n RemapState" where
  "remapClip episodeSubtitles st clip =
     (let entries = entriesOf episodeSubtitles clip;
          clipSubtitles =
            filter (\<lambda>entry. SubtitleEntry.startTime entry \<ge> ClipDefinition.startTime clip
                          \<and> SubtitleEntry.endTime entry \<le> ClipDefinition.endTime clip) entries;
          st' = foldl (pushSubtitle clip) st clipSubtitles
      in st'\<lparr>currentOffset := currentOffset st'
                 + (ClipDefinition.endTime clip - ClipDefinition.startTime clip)\<rparr>)"

definition remapLoop ::
  "'n::{zero,plus,minus,ord} ClipDefinition list \<Rightarrow> (jsstring \<rightharpoonup> 'n SubtitleEntry list)
     \<Rightarrow> 'n RemapState" where
  "remapLoop clips episodeSubtitles =
     foldl (remapClip episodeSubtitles)
       \<lparr>remapped = [], currentOffset = 0, RemapState.index = 1\<rparr> clips"

definition remapSubtitlesToClips ::
  "'n::{zero,plus,minus,ord} ClipDefinition list \<Rightarrow> (jsstring \<rightharpoonup> 'n SubtitleEntry list)
     \<Rightarrow> 'n RemappedSubtitle list" where
  "remapSubtitlesToClips clips episodeSubtitles = remapped (remapLoop clips episodeSubtitles)"

subsection \<open>calculateTotalDuration\<close>

definition calculateTotalDuration :: "'n::{zero,plus,minus} ClipDefinition list \<Rightarrow> 'n" where
  "calculateTotalDuration clips =
     foldl (\<lambda>sum clip. sum + (ClipDefinition.endTime clip - ClipDefinition.startTime clip)) 0 clips"

subsection \<open>The remapper as the specification describes it\<close>

text \<open>
  The entries a clip selects, each paired with the clip and with the output offset in
  effect for the clip at position \<open>k\<close>: the total duration of the clips before it.
\<close>

definition clipContribution ::
  "'n::{zero,plus,minus,ord} ClipDefinition list \<Rightarrow> (jsstring \<rightharpoonup> 'n SubtitleEntry list)
     \<Rightarrow> nat \<Rightarrow> ('n \<times> 'n ClipDefinition \<times> 'n SubtitleEntry) list" where
  "clipContribution clips episodeSubtitles k =
     map (\<lambda>entry. (calculateTotalDuration (take k clips), clips ! k, entry))
       [entry \<leftarrow> entriesOf episodeSubtitles (clips ! k).
          SubtitleEntry.startTime entry \<ge> ClipDefinition.startTime (clips ! k)
          \<and> SubtitleEntry.endTime entry \<le> ClipDefinition.endTime (clips ! k)]"

definition contributions ::
  "'n::{zero,plus,minus,ord} ClipDefinition list \<Rightarrow> (jsstring \<rightharpoonup> 'n SubtitleEntry list)
     \<Rightarrow> ('n \<times> 'n ClipDefinition \<times> 'n SubtitleEntry) list" where
  "contributions clips episodeSubtitles =
     concat (map (clipContribution clips episodeSubtitles) [0..<length clips])"

definition emit ::
  "nat \<times> 'n::{zero,plus,minus,ord} \<times> 'n ClipDefinition \<times> 'n SubtitleEntry \<Rightarrow> 'n RemappedSubtitle" where
  "emit = (\<lambda>(i, outputOffset, clip, entry).
     \<lparr>RemappedSubtitle.index = Suc i,
      RemappedSubtitle.startTime =
        outputOffset + (SubtitleEntry.startTime entry - ClipDefinition.startTime clip),
      RemappedSubtitle.endTime =
        outputOffset + (SubtitleEntry.endTime entry - ClipDefinition.startTime clip),
      RemappedSubtitle.text' = SubtitleEntry.text' entry,
      originalEpisodeId = ClipDefinition.episodeId clip,
      originalStartTime = SubtitleEntry.startTime entry\<rparr>)"

subsection \<open>Well-formed input of the remapper\<close>

text \<open>
  The data model asks of a clip that \<open>startTime \<le> endTime\<close> and of an entry that
  \<open>startTime \<le> endTime\<close>; the remapper checks neither. An episode's entries are
  in time order when each starts no earlier than the one before it.
\<close>

definition validClips :: "'n::ord ClipDefinition list \<Rightarrow> bool" where
  "validClips clips \<longleftrightarrow>
     (\<forall>clip\<in>set clips. ClipDefinition.startTime clip \<le> ClipDefinition.endTime clip)"

definition validEntries :: "'n::ord SubtitleEntry list \<Rightarrow> bool" where
  "validEntries es \<longleftrightarrow>
     (\<forall>entry\<in>set es. SubtitleEntry.startTime entry \<le> SubtitleEntry.endTime entry)"

definition inTimeOrder :: "'n::ord SubtitleEntry list \<Rightarrow> bool" where
  "inTimeOrder es \<longleftrightarrow>
     sorted_wrt (\<lambda>a b. SubtitleEntry.startTime a \<le> SubtitleEntry.startTime b) es"

definition validSubtitles :: "(jsstring \<rightharpoonup> 'n::ord SubtitleEntry list) \<Rightarrow> bool" where
  "validSubtitles episodeSubtitles \<longleftrightarrow>
     (\<forall>es\<in>ran episodeSubtitles. validEntries es \<and> inTimeOrder es)"

subsection \<open>The fixture of the test \<open>should remap subtitles to new timeline\<close>\<close>

definition testClips :: "real ClipDefinition list" where
  "testClips =
     [\<lparr>ClipDefinition.episodeId = str ''S01E01'', videoPath = str ''e01.mp4'',
       ClipDefinition.startTime = 10, ClipDefinition.endTime = 20, order = 1\<rparr>,
      \<lparr>ClipDefinition.episodeId = str ''S01E02'', videoPath = str ''e02.mp4'',
       ClipDefinition.startTime = 30, ClipDefinition.endTime = 40, order = 2\<rparr>]"

definition testNotIncluded :: "real SubtitleEntry" where
  "testNotIncluded =
     \<lparr>SubtitleEntry.episodeId = str ''S01E01'', SubtitleEntry.index = 2,
      SubtitleEntry.startTime = 50, SubtitleEntry.endTime = 55,
      SubtitleEntry.text' = str ''Not included''\<rparr>"

definition testSub1 :: "real SubtitleEntry" where
  "testSub1 =
     \<lparr>SubtitleEntry.episodeId = str ''S01E01'', SubtitleEntry.index = 1,
      SubtitleEntry.startTime = 12, SubtitleEntry.endTime = 15,
      SubtitleEntry.text' = str ''Sub 1''\<rparr>"

definition testSub2 :: "real SubtitleEntry" where
  "testSub2 =
     \<lparr>SubtitleEntry.episodeId = str ''S01E02'', SubtitleEntry.index = 1,
      SubtitleEntry.startTime = 32, SubtitleEntry.endTime = 38,
      SubtitleEntry.text' = str ''Sub 2''\<rparr>"

definition testEpisodeSubtitles :: "jsstring \<rightharpoonup> real SubtitleEntry list" where
  "testEpisodeSubtitles =
     [str ''S01E01'' \<mapsto> [testSub1, testNotIncluded], str ''S01E02'' \<mapsto> [testSub2]]"

subsection \<open>An episode whose entries are not listed in time order\<close>

definition unsortedClips :: "real ClipDefinition list" where
  "unsortedClips =
     [\<lparr>ClipDefinition.episodeId = str ''S01E01'', videoPath = str ''e01.mp4'',
       ClipDefinition.startTime = 0, ClipDefinition.endTime = 10, order = 1\<rparr>]"

definition unsortedEntries :: "real SubtitleEntry list" where
  "unsortedEntries =
     [\<lparr>SubtitleEntry.episodeId = str ''S01E01'', SubtitleEntry.index = 1,
       SubtitleEntry.startTime = 5, SubtitleEntry.endTime = 6,
       SubtitleEntry.text' = str ''listed first''\<rparr>,
      \<lparr>SubtitleEntry.episodeId = str ''S01E01'', SubtitleEntry.index = 2,
       SubtitleEntry.startTime = 1, SubtitleEntry.endTime = 2,
       SubtitleEntry.text' = str ''listed second''\<rparr>]"

section \<open>jobs/types.ts\<close>

datatype JobStatus =
    pending | validating | parsing | analyzing | generating_clips | processing_video
  | generating_srt | generating_tts | mixing_audio | completed | failed

datatype SummaryMode = A | B

text \<open>
  Of the interfaces \<open>JobProgress\<close>, \<open>JobConfig\<close> and \<open>Job\<close>, the fields of
  string, number and status type; \<open>calculateOverallProgress\<close> reads \<open>config.mode\<close>,
  \<open>status\<close> and \<open>progress.stageProgress\<close>. Numbers are exact reals here.
\<close>

record JobProgress =
  stage :: JobStatus
  stageProgress :: real
  currentStep :: jsstring
  completedStages :: "JobStatus list"
  errors :: "jsstring list"

record JobConfig =
  seriesName :: jsstring
  season :: real
  language :: jsstring
  mode :: SummaryMode

record Job =
  id' :: jsstring
  config :: JobConfig
  status :: JobStatus
  progress :: JobProgress

text \<open>\<open>Array.prototype.indexOf\<close>: the first position of the element, or \<open>-1\<close>.\<close>

fun indexOf :: "'a list \<Rightarrow> 'a \<Rightarrow> int" where
  "indexOf [] x = - 1"
| "indexOf (y # ys) x =
     (if y = x then 0 else (let i = indexOf ys x in if i = - 1 then - 1 else i + 1))"

subsection \<open>calculateOverallProgress\<close>

definition stages :: "JobStatus list" where
  "stages = [pending, validating, parsing, analyzing, generating_clips, processing_video,
             generating_srt, generating_tts, mixing_audio, completed]"

definition relevantStages :: "Job \<Rightarrow> JobStatus list" where
  "relevantStages job =
     (if mode (config job) = A
      then filter (\<lambda>s. s \<noteq> generating_tts \<and> s \<noteq> mixing_audio) stages
      else stages)"

text \<open>\<open>Math.round\<close> rounds a half up, as \<^const>\<open>round\<close> does.\<close>

definition calculateOverallProgress :: "Job \<Rightarrow> real" where
  "calculateOverallProgress job =
     (let currentIndex = indexOf (relevantStages job) (status job) in
      if currentIndex = - 1 then 0
      else if status job = failed then stageProgress (progress job)
      else if status job = completed then 100
      else
        let stageWeight = 100 / (real (length (relevantStages job)) - 1);
            baseProgress = real_of_int currentIndex * stageWeight;
            stageProgress = (stageProgress (progress job) / 100) * stageWeight
        in min 99 (real_of_int (round (baseProgress + stageProgress))))"

text \<open>A mode A job in its last working stage, with the stage fully done.\<close>

definition exampleJob :: Job where
  "exampleJob =
     \<lparr>id' = str ''job-1'',
      config = \<lparr>seriesName = str ''Test Show'', season = 1, language = str ''en-US'', mode = A\<rparr>,
      status = generating_srt,
      progress = \<lparr>stage = generating_srt, stageProgress = 100, currentStep = str ''Writing SRT'',
                  completedStages = [validating, parsing, analyzing, generating_clips,
                                     processing_video],
                  errors = []\<rparr>\<rparr>"

section \<open>Regular expressions and string methods of the source language\<close>

text \<open>
  The regular expressions of the source, with the backtracking semantics of the language:
  \<open>matches r s x\<close> lists the states in which a match of \<open>r\<close> started in state
  \<open>x\<close> can end, in the order in which backtracking tries them; a state is the position
  reached and the captures made. \<open>Class p\<close> is one code unit of a character class,
  \<open>Lit w\<close> a literal word, \<open>Behind p\<close> the lookbehind \<open>(?<=[p])\<close>,
  \<open>Group n r\<close> the \<open>n\<close>-th capturing group, \<open>Opt r\<close> the greedy \<open>r?\<close> and
  \<open>Star r\<close> the greedy \<open>r*\<close>; as in the language, an iteration of \<open>r?\<close> or
  \<open>r*\<close> that consumes nothing is not taken.
\<close>

datatype regex =
    Class "nat \<Rightarrow> bool"
  | Lit jsstring
  | Behind "nat \<Rightarrow> bool"
  | Seq regex regex
  | Group nat regex
  | Opt regex
  | Star regex

type_synonym mstate = "nat \<times> (nat \<rightharpoonup> jsstring)"

function (sequential) matches :: "regex \<Rightarrow> jsstring \<Rightarrow> mstate \<Rightarrow> mstate list" where
  "matches (Class p) s (i, caps) =
     (if i < length s \<and> p (s ! i) then [(Suc i, caps)] else [])"
| "matches (Lit w) s (i, caps) =
     (if take (length w) (drop i s) = w then [(i + length w, caps)] else [])"
| "matches (Behind p) s (i, caps) =
     (if 0 < i \<and> i \<le> length s \<and> p (s ! (i - 1)) then [(i, caps)] else [])"
| "matches (Seq r1 r2) s x = concat (map (\<lambda>y. matches r2 s y) (matches r1 s x))"
| "matches (Group n r) s (i, caps) =
     map (\<lambda>(j, caps'). (j, caps'(n \<mapsto> take (j - i) (drop i s)))) (matches r s (i, caps))"
| "matches (Opt r) s x =
     filter (\<lambda>y. fst y \<noteq> fst x) (matches r s x) @ [x]"
| "matches (Star r) s x =
     concat (map (\<lambda>y. if fst x < fst y \<and> fst y \<le> length s then matches (Star r) s y else [])
               (matches r s x)) @ [x]"
  by pat_completeness auto
termination
  by (relation "inv_image (less_than <*lex*> less_than)
                  (\<lambda>(r, s, x). (size r, length s - fst x))") auto

text \<open>
  \<open>String.prototype.match\<close> with a regular expression without the \<open>g\<close> flag: the
  first match at the leftmost position that has one, as its captures; \<open>None\<close> is
  \<open>null\<close>.
\<close>

function execFrom :: "regex \<Rightarrow> jsstring \<Rightarrow> nat \<Rightarrow> mstate option" where
  "execFrom r s i =
     (if length s < i then None
      else case matches r s (i, Map.empty) of
             y # _ \<Rightarrow> Some y
           | [] \<Rightarrow> execFrom r s (Suc i))"
  by pat_completeness auto
termination
  by (relation "measure (\<lambda>(r, s, i). Suc (length s) - i)") auto


declare matches.simps [simp del] execFrom.simps [simp del]

text \<open>
  A match never ends before it starts and never beyond the string. So the bound on
  \<open>fst y\<close> in the equation of \<open>Star\<close>, which the termination proof uses, holds of
  every state it is tested on, and the test is the language's: the iteration consumed
  something.
\<close>

lemma matches_mono:
  "y \<in> set (matches r s x) \<Longrightarrow> fst x \<le> fst y"
proof (induction r s x arbitrary: y rule: matches.induct)
  case (1 p s i caps)
  then show ?case by (simp add: matches.simps split: if_splits)
next
  case (2 w s i caps)
  then show ?case by (simp add: matches.simps split: if_splits)
next
  case (3 p s i caps)
  then show ?case by (simp add: matches.simps split: if_splits)
next
  case (4 r1 r2 s x)
  from "4.prems" obtain z where z: "z \<in> set (matches r1 s x)" "y \<in> set (matches r2 s z)"
    by (auto simp: matches.simps)
  have "fst x \<le> fst z" using "4.IH"(1) [OF z(1)] .
  moreover have "fst z \<le> fst y" using "4.IH"(2) [OF z] .
  ultimately show ?case by simp
next
  case (5 n r s i caps)
  from "5.prems" obtain j caps' where "(j, caps') \<in> set (matches r s (i, caps))" "fst y = j"
    by (auto simp: matches.simps)
  then show ?case using "5.IH" [of "(j, caps')"] by simp
next
  case (6 r s x)
  from "6.prems" have "y = x \<or> y \<in> set (matches r s x)"
    by (auto simp: matches.simps)
  then show ?case using "6.IH" [of y] by auto
next
  case (7 r s x)
  from "7.prems" consider "y = x"
    | z where "z \<in> set (matches r s x)" "fst x < fst z" "fst z \<le> length s"
              "y \<in> set (matches (Star r) s z)"
    by (subst (asm) matches.simps) (auto split: if_splits)
  then show ?case
  proof cases
    case 1
    then show ?thesis by simp
  next
    case 2
    have "fst z \<le> fst y"
      using "7.IH"(2) [of z y] 2 by simp
    with 2(2) show ?thesis by simp
  qed
qed

lemma matches_within:
  "y \<in> set (matches r s x) \<Longrightarrow> fst x \<le> length s \<Longrightarrow> fst y \<le> length s"
proof (induction r s x arbitrary: y rule: matches.induct)
  case (1 p s i caps)
  then show ?case by (auto simp: matches.simps split: if_splits)
next
  case (2 w s i caps)
  from "2.prems"(1) have w: "take (length w) (drop i s) = w" and y: "fst y = i + length w"
    by (auto simp: matches.simps split: if_splits)
  from w have "length (take (length w) (drop i s)) = length w"
    by simp
  then have "length w \<le> length s - i"
    by simp
  with y "2.prems"(2) show ?case by simp
next
  case (3 p s i caps)
  then show ?case by (auto simp: matches.simps split: if_splits)
next
  case (4 r1 r2 s x)
  from "4.prems"(1) obtain z where z: "z \<in> set (matches r1 s x)" "y \<in> set (matches r2 s z)"
    by (auto simp: matches.simps)
  have "fst z \<le> length s" using "4.IH"(1) [OF z(1) "4.prems"(2)] .
  then show ?case using "4.IH"(2) [OF z] by simp
next
  case (5 n r s i caps)
  from "5.prems"(1) obtain j caps' where "(j, caps') \<in> set (matches r s (i, caps))" "fst y = j"
    by (auto simp: matches.simps)
  then show ?case using "5.IH" [of "(j, caps')"] "5.prems"(2) by simp
next
  case (6 r s x)
  from "6.prems"(1) have "y = x \<or> y \<in> set (matches r s x)"
    by (auto simp: matches.simps)
  then show ?case using "6.IH" [of y] "6.prems"(2) by auto
next
  case (7 r s x)
  from "7.prems"(1) consider "y = x"
    | z where "z \<in> set (matches r s x)" "fst x < fst z" "fst z \<le> length s"
              "y \<in> set (matches (Star r) s z)"
    by (subst (asm) matches.simps) (auto split: if_splits)
  then show ?case
  proof cases
    case 1
    then show ?thesis using "7.prems"(2) by simp
  next
    case 2
    show ?thesis
      using "7.IH"(2) [of z y] 2 by simp
  qed
qed

lemma matches_Star:
  assumes "fst x \<le> length s"
  shows "matches (Star r) s x =
           concat (map (\<lambda>y. if fst y \<noteq> fst x then matches (Star r) s y else [])
                     (matches r s x)) @ [x]"
proof -
  have "(fst x < fst y \<and> fst y \<le> length s) = (fst y \<noteq> fst x)"
    if "y \<in> set (matches r s x)" for y
    using matches_mono [OF that] matches_within [OF that assms] by auto
  then have eq: "map (\<lambda>y. if fst x < fst y \<and> fst y \<le> length s then matches (Star r) s y else [])
               (matches r s x) =
             map (\<lambda>y. if fst y \<noteq> fst x then matches (Star r) s y else []) (matches r s x)"
    by (intro map_cong) simp_all
  show ?thesis
    by (subst matches.simps) (simp only: eq)
qed


text \<open>The classes \<open>\d\<close> and \<open>\s\<close>.\<close>

definition isDigit :: "nat \<Rightarrow> bool" where
  "isDigit c \<longleftrightarrow> 48 \<le> c \<and> c \<le> 57"

definition isWhiteSpace :: "nat \<Rightarrow> bool" where
  "isWhiteSpace c \<longleftrightarrow>
     c \<in> {9, 10, 11, 12, 13, 32, 160, 5760, 8232, 8233, 8239, 8287, 12288, 65279}
     \<or> (8192 \<le> c \<and> c \<le> 8202)"

section \<open>subtitles/srtParser.ts: extractEpisodeIdFromFilename\<close>











section \<open>tts/azureSpeech.ts: splitTextIntoChunks\<close>

text \<open>
  \<open>String.prototype.split\<close> with a regular expression, as the language defines it:
  \<open>p\<close> is the start of the piece being collected and \<open>q\<close> the position
  tried; a match at \<open>q\<close> that ends at \<open>p\<close> (an empty match where the last
  piece ended) is passed over.
\<close>

definition matchAt :: "regex \<Rightarrow> jsstring \<Rightarrow> nat \<Rightarrow> nat option" where
  "matchAt r s q = (case matches r s (q, Map.empty) of [] \<Rightarrow> None | y # _ \<Rightarrow> Some (fst y))"

lemma matchAt_ge: "matchAt r s q = Some e \<Longrightarrow> q \<le> e"
  using matches_mono [of _ r s "(q, Map.empty)"]
  by (auto simp: matchAt_def split: list.splits)

function splitLoop :: "regex \<Rightarrow> jsstring \<Rightarrow> nat \<Rightarrow> nat \<Rightarrow> jsstring list" where
  "splitLoop r s p q =
     (if q < length s then
        (case matchAt r s q of
           None \<Rightarrow> splitLoop r s p (Suc q)
         | Some e' \<Rightarrow>
             (let e = min e' (length s) in
              if e = p then splitLoop r s p (Suc q)
              else take (q - p) (drop p s) # splitLoop r s e e))
      else [drop p s])"
  by pat_completeness auto
termination
proof (relation "measure (\<lambda>(r, s, p, q). 2 * (length s - q) + (if p = q then 0 else 1))",
    goal_cases)
  case 1
  show ?case by simp
next
  case (2 r s p q)
  then show ?case by auto
next
  case (3 r s p q e' e)
  then show ?case by auto
next
  case (4 r s p q e' e)
  then have "q \<le> e" "e \<le> length s"
    using matchAt_ge [of r s q e'] by auto
  with 4 show ?case
    by (cases "e = q") auto
qed

definition split :: "jsstring \<Rightarrow> regex \<Rightarrow> jsstring list" where
  "split s r =
     (if s = [] then (case matchAt r s 0 of Some e \<Rightarrow> [] | None \<Rightarrow> [s])
      else splitLoop r s 0 0)"

text \<open>\<open>String.prototype.trim\<close>\<close>

definition trim :: "jsstring \<Rightarrow> jsstring" where
  "trim s = rev (dropWhile isWhiteSpace (rev (dropWhile isWhiteSpace s)))"

definition MAX_CHARS_PER_CHUNK :: nat where
  "MAX_CHARS_PER_CHUNK = 2000"

text \<open>\<open>/(?<=[.!?])\s+/\<close> and \<open>/(?<=,)\s*/\<close>\<close>

definition sentenceBoundary :: regex where
  "sentenceBoundary =
     Seq (Behind (\<lambda>c. c \<in> set (str ''.!?'')))
       (Seq (Class isWhiteSpace) (Star (Class isWhiteSpace)))"

definition commaBoundary :: regex where
  "commaBoundary = Seq (Behind (\<lambda>c. c \<in> set (str '',''))) (Star (Class isWhiteSpace))"

text \<open>
  The local variables \<open>chunks\<close> and \<open>currentChunk\<close>; the body of the loop over
  the parts of a long sentence and the body of the loop over the sentences.
\<close>

record ChunkState =
  chunks :: "jsstring list"
  currentChunk :: jsstring

definition addPart :: "ChunkState \<Rightarrow> jsstring \<Rightarrow> ChunkState" where
  "addPart st part =
     (if length (currentChunk st @ str '' '' @ part) > MAX_CHARS_PER_CHUNK then
        (let st' = (if currentChunk st \<noteq> []
                    then st\<lparr>chunks := chunks st @ [trim (currentChunk st)]\<rparr> else st)
         in st'\<lparr>currentChunk := part\<rparr>)
      else
        st\<lparr>currentChunk :=
             currentChunk st @ (if currentChunk st \<noteq> [] then str '' '' else []) @ part\<rparr>)"

definition addSentence :: "ChunkState \<Rightarrow> jsstring \<Rightarrow> ChunkState" where
  "addSentence st sentence =
     (if length sentence > MAX_CHARS_PER_CHUNK then
        (let st' = (if currentChunk st \<noteq> []
                    then \<lparr>chunks = chunks st @ [trim (currentChunk st)], currentChunk = []\<rparr>
                    else st);
             parts = split sentence commaBoundary
         in foldl addPart st' parts)
      else if length (currentChunk st @ str '' '' @ sentence) > MAX_CHARS_PER_CHUNK then
        \<lparr>chunks = chunks st @ [trim (currentChunk st)], currentChunk = sentence\<rparr>
      else
        st\<lparr>currentChunk :=
             currentChunk st @ (if currentChunk st \<noteq> [] then str '' '' else []) @ sentence\<rparr>)"

definition splitTextIntoChunks :: "jsstring \<Rightarrow> jsstring list" where
  "splitTextIntoChunks text =
     (if length text \<le> MAX_CHARS_PER_CHUNK then [text]
      else
        (let sentences = split text sentenceBoundary;
             st = foldl addSentence \<lparr>chunks = [], currentChunk = []\<rparr> sentences
         in if trim (currentChunk st) \<noteq> [] then chunks st @ [trim (currentChunk st)]
            else chunks st))"

declare splitLoop.simps [simp del]

text \<open>A text of 2001 letters with no space, comma or sentence punctuation.\<close>

definition unbrokenText :: jsstring where
  "unbrokenText = replicate 2001 (of_char CHR ''a'')"

section \<open>subtitles/srtParser.ts: timestamps\<close>

text \<open>
  A number of the source is \<open>NaN\<close> or an exact real: the rounding of floating-point
  arithmetic and the infinities are not modelled.
\<close>

datatype number = NaN | Num real

instantiation number :: "{plus, times, inverse}"
begin

fun plus_number :: "number \<Rightarrow> number \<Rightarrow> number" where
  "plus_number (Num a) (Num b) = Num (a + b)"
| "plus_number _ _ = NaN"

fun times_number :: "number \<Rightarrow> number \<Rightarrow> number" where
  "times_number (Num a) (Num b) = Num (a * b)"
| "times_number _ _ = NaN"

fun inverse_number :: "number \<Rightarrow> number" where
  "inverse_number (Num a) = (if a = 0 then NaN else Num (inverse a))"
| "inverse_number NaN = NaN"

fun divide_number :: "number \<Rightarrow> number \<Rightarrow> number" where
  "divide_number (Num a) (Num b) = (if b = 0 then NaN else Num (a / b))"
| "divide_number _ _ = NaN"

instance ..

end

text \<open>\<open>throw new Error(message)\<close>\<close>

datatype error = Error jsstring

text \<open>
  \<open>s.replace(c, d)\<close> and \<open>s.split(c)\<close> for a one-character string \<open>c\<close>;
  \<open>parseInt(s, 10)\<close>; \<open>s.padEnd(n, p)\<close>.
\<close>

fun replaceFirst :: "nat \<Rightarrow> nat \<Rightarrow> jsstring \<Rightarrow> jsstring" where
  "replaceFirst c d [] = []"
| "replaceFirst c d (x # xs) = (if x = c then d # xs else x # replaceFirst c d xs)"

fun splitOn :: "nat \<Rightarrow> jsstring \<Rightarrow> jsstring list" where
  "splitOn c [] = [[]]"
| "splitOn c (x # xs) =
     (if x = c then [] # splitOn c xs
      else (case splitOn c xs of p # ps \<Rightarrow> (x # p) # ps | [] \<Rightarrow> [[x]]))"

definition decimal :: "jsstring \<Rightarrow> nat" where
  "decimal ds = foldl (\<lambda>a c. 10 * a + (c - 48)) 0 ds"

definition parseInt :: "jsstring \<Rightarrow> number" where
  "parseInt s =
     (let t = dropWhile isWhiteSpace s;
          negative = (t \<noteq> [] \<and> hd t = of_char CHR ''-'');
          signed = (t \<noteq> [] \<and> (hd t = of_char CHR ''-'' \<or> hd t = of_char CHR ''+''));
          ds = takeWhile isDigit (if signed then tl t else t)
      in if ds = [] then NaN
         else Num (if negative then - real (decimal ds) else real (decimal ds)))"

definition padEnd :: "nat \<Rightarrow> jsstring \<Rightarrow> jsstring \<Rightarrow> jsstring" where
  "padEnd targetLength padString s =
     (if targetLength \<le> length s \<or> padString = [] then s
      else s @ take (targetLength - length s)
             (concat (replicate (targetLength - length s) padString)))"

text \<open>\<open>xs[i] ?? d\<close>\<close>

definition nthOr :: "'a list \<Rightarrow> nat \<Rightarrow> 'a \<Rightarrow> 'a" where
  "nthOr xs i d = (if i < length xs then xs ! i else d)"

definition srtTimeToSeconds :: "jsstring \<Rightarrow> error + number" where
  "srtTimeToSeconds timestamp =
     (let normalized = replaceFirst (of_char CHR '','') (of_char CHR ''.'') timestamp;
          parts = splitOn (of_char CHR '':'') normalized
      in if length parts \<noteq> 3
         then Inl (Error (str ''Invalid SRT timestamp format: '' @ timestamp))
         else
           (let hours = parseInt (nthOr parts 0 (str ''0''));
                minutes = parseInt (nthOr parts 1 (str ''0''));
                secondsParts = splitOn (of_char CHR ''.'') (nthOr parts 2 (str ''0''));
                seconds = parseInt (nthOr secondsParts 0 (str ''0''));
                milliseconds = parseInt (padEnd 3 (str ''0'') (nthOr secondsParts 1 (str ''0'')))
            in Inr (hours * Num 3600 + minutes * Num 60 + seconds + milliseconds / Num 1000)))"






text \<open>
  The timestamps of the form \<open>HH:MM:SS,mmm\<close> or \<open>HH:MM:SS.mmm\<close>, and the seconds
  such a timestamp stands for.
\<close>

definition wellFormedTimestamp :: "jsstring \<Rightarrow> bool" where
  "wellFormedTimestamp t \<longleftrightarrow>
     length t = 12
     \<and> list_all isDigit (take 2 t) \<and> t ! 2 = of_char CHR '':''
     \<and> list_all isDigit (take 2 (drop 3 t)) \<and> t ! 5 = of_char CHR '':''
     \<and> list_all isDigit (take 2 (drop 6 t))
     \<and> t ! 8 \<in> {of_char CHR '','', of_char CHR ''.''}
     \<and> list_all isDigit (drop 9 t)"

definition timestampValue :: "jsstring \<Rightarrow> real" where
  "timestampValue t =
     real (decimal (take 2 t)) * 3600 + real (decimal (take 2 (drop 3 t))) * 60
     + real (decimal (take 2 (drop 6 t))) + real (decimal (drop 9 t)) / 1000"

section \<open>The arithmetic of the source language on binary64 numbers\<close>

text \<open>
  The numbers of the source are IEEE 754 binary64 values. For finite values and results
  short of overflow, a sum or difference is the exact result rounded to the nearest value
  with a 53-bit significand, ties to the even significand; a result in the subnormal range
  is exact and needs fewer bits. \<open>exponent x\<close> is the integer \<open>e\<close> with
  \<open>2\<^sup>e \<le> |x| < 2\<^sup>e\<^sup>+\<^sup>1\<close>, \<open>roundToDouble\<close> the rounding, and
  \<open>decimalLiteral\<close> the value a decimal literal of the source denotes.
\<close>

definition halfEven :: "rat \<Rightarrow> int" where
  "halfEven m =
     (let f = \<lfloor>m\<rfloor>; r = m - of_int f
      in if r < 1 / 2 then f else if 1 / 2 < r then f + 1 else if even f then f else f + 1)"

definition exponent :: "rat \<Rightarrow> int" where
  "exponent x =
     (let d = bitlen (fst (quotient_of \<bar>x\<bar>)) - bitlen (snd (quotient_of \<bar>x\<bar>))
      in if power_int 2 d \<le> \<bar>x\<bar> then d else d - 1)"

definition roundToDouble :: "rat \<Rightarrow> rat" where
  "roundToDouble x =
     (if x = 0 then 0
      else let e = exponent x - 52
           in of_int (halfEven (x / power_int 2 e)) * power_int 2 e)"

datatype double = Double rat

instantiation double :: "{zero, plus, minus, linorder}"
begin

definition zero_double :: double where
  "zero_double = Double 0"

fun plus_double :: "double \<Rightarrow> double \<Rightarrow> double" where
  "plus_double (Double a) (Double b) = Double (roundToDouble (a + b))"

fun minus_double :: "double \<Rightarrow> double \<Rightarrow> double" where
  "minus_double (Double a) (Double b) = Double (roundToDouble (a - b))"

fun less_eq_double :: "double \<Rightarrow> double \<Rightarrow> bool" where
  "less_eq_double (Double a) (Double b) \<longleftrightarrow> a \<le> b"

fun less_double :: "double \<Rightarrow> double \<Rightarrow> bool" where
  "less_double (Double a) (Double b) \<longleftrightarrow> a < b"

instance
proof
  fix x y z :: double
  show "x < y \<longleftrightarrow> x \<le> y \<and> \<not> y \<le> x"
    by (cases x; cases y) auto
  show "x \<le> x"
    by (cases x) simp
  show "x \<le> y \<Longrightarrow> y \<le> z \<Longrightarrow> x \<le> z"
    by (cases x; cases y; cases z) simp
  show "x \<le> y \<Longrightarrow> y \<le> x \<Longrightarrow> x = y"
    by (cases x; cases y) simp
  show "x \<le> y \<or> y \<le> x"
    by (cases x; cases y) auto
qed

end

definition decimalLiteral :: "rat \<Rightarrow> double" where
  "decimalLiteral x = Double (roundToDouble x)"

text \<open>Two clips; the second selects an entry from 0.1 s to 0.3 s of its episode.\<close>

definition roundingClips :: "double ClipDefinition list" where
  "roundingClips =
     [\<lparr>ClipDefinition.episodeId = str ''S01E01'', videoPath = str ''e01.mp4'',
       ClipDefinition.startTime = decimalLiteral 0, ClipDefinition.endTime = decimalLiteral 10,
       order = 1\<rparr>,
      \<lparr>ClipDefinition.episodeId = str ''S01E02'', videoPath = str ''e02.mp4'',
       ClipDefinition.startTime = decimalLiteral 0, ClipDefinition.endTime = decimalLiteral 1,
       order = 2\<rparr>]"

definition roundingEntry :: "double SubtitleEntry" where
  "roundingEntry =
     \<lparr>SubtitleEntry.episodeId = str ''S01E02'', SubtitleEntry.index = 1,
      SubtitleEntry.startTime = decimalLiteral (1 / 10),
      SubtitleEntry.endTime = decimalLiteral (3 / 10),
      SubtitleEntry.text' = str ''Hello''\<rparr>"

section \<open>Properties of the rounding\<close>

lemma bitlen_pow:
  assumes "0 < n"
  shows "(2::rat) ^ nat (bitlen n) \<le> 2 * of_int n \<and> of_int n < (2::rat) ^ nat (bitlen n)"
proof -
  from bitlen_bounds [OF assms]
  have lo: "2 ^ nat (bitlen n - 1) \<le> n" and hi: "n < 2 ^ nat (bitlen n)"
    by simp_all
  have pos: "0 < bitlen n"
    using assms bitlen_nonneg [of n] bitlen_eq_zero_iff [of n] by linarith
  then have "nat (bitlen n) = Suc (nat (bitlen n - 1))"
    by simp
  then have "(2::int) ^ nat (bitlen n) = 2 * 2 ^ nat (bitlen n - 1)"
    by simp
  with lo have "(2::int) ^ nat (bitlen n) \<le> 2 * n"
    by simp
  then have "of_int ((2::int) ^ nat (bitlen n)) \<le> (of_int (2 * n) :: rat)"
    by (simp only: of_int_le_iff)
  moreover from hi have "(of_int n :: rat) < of_int ((2::int) ^ nat (bitlen n))"
    by (simp only: of_int_less_iff)
  ultimately show ?thesis
    by simp
qed

lemma exponent_bounds:
  assumes "x \<noteq> 0"
  shows "power_int 2 (exponent x) \<le> \<bar>x\<bar> \<and> \<bar>x\<bar> < power_int 2 (exponent x + 1)"
proof -
  obtain p q where pq: "quotient_of \<bar>x\<bar> = (p, q)"
    by (cases "quotient_of \<bar>x\<bar>")
  have q: "0 < q"
    using quotient_of_denom_pos [OF pq] .
  have a: "\<bar>x\<bar> = of_int p / of_int q"
    using quotient_of_div [OF pq] .
  have "0 < \<bar>x\<bar>"
    using assms by simp
  then have p: "0 < p"
    using q unfolding a by (simp add: zero_less_divide_iff)
  define P Q :: rat where "P = 2 ^ nat (bitlen p)" and "Q = 2 ^ nat (bitlen q)"
  have P: "P \<le> 2 * of_int p" "of_int p < P" and Q: "Q \<le> 2 * of_int q" "of_int q < Q"
    using bitlen_pow [OF p] bitlen_pow [OF q] by (simp_all add: P_def Q_def)
  have P0: "0 < P" and Q0: "0 < Q"
    by (simp_all add: P_def Q_def)
  have bl: "power_int (2::rat) (bitlen p) = P" "power_int (2::rat) (bitlen q) = Q"
    using bitlen_nonneg [of p] bitlen_nonneg [of q] by (simp_all add: power_int_def P_def Q_def)
  define d where "d = bitlen p - bitlen q"
  have "power_int (2::rat) d = power_int 2 (bitlen p) / power_int 2 (bitlen q)"
    unfolding d_def by (rule power_int_diff) simp
  then have pd: "power_int (2::rat) d = P / Q"
    by (simp only: bl)
  have up: "power_int (2::rat) (d + 1) = 2 * P / Q"
    by (simp add: power_int_add pd)
  have down: "power_int (2::rat) (d - 1) = P / (2 * Q)"
    by (simp add: power_int_diff pd)
  have p' : "(0::rat) < of_int p" and q': "(0::rat) < of_int q"
    using p q by simp_all
  have lt: "\<bar>x\<bar> < 2 * P / Q"
  proof -
    have "of_int p * Q < P * Q"
      using P(2) Q0 by simp
    also have "\<dots> \<le> P * (2 * of_int q)"
      using Q(1) P0 by simp
    finally have "of_int p * Q < 2 * P * of_int q"
      by (simp add: mult_ac)
    then show ?thesis
      unfolding a using Q0 q' by (simp add: field_simps)
  qed
  have ge: "P / (2 * Q) \<le> \<bar>x\<bar>"
  proof -
    have "P * of_int q \<le> (2 * of_int p) * of_int q"
      using P(1) q' by simp
    also have "\<dots> \<le> (2 * of_int p) * Q"
      using Q(2) p' by simp
    finally have "P * of_int q \<le> 2 * Q * of_int p"
      by (simp add: mult_ac)
    then show ?thesis
      unfolding a using Q0 q' by (simp add: field_simps)
  qed
  have e: "exponent x = (if power_int 2 d \<le> \<bar>x\<bar> then d else d - 1)"
    by (simp add: exponent_def pq d_def Let_def)
  show ?thesis
  proof (cases "power_int 2 d \<le> \<bar>x\<bar>")
    case True
    then show ?thesis
      using lt by (simp add: e up)
  next
    case False
    then have "\<bar>x\<bar> < power_int 2 (d - 1 + 1)"
      by simp
    with False ge show ?thesis
      by (simp add: e down del: power_int_diff)
  qed
qed

lemma halfEven_nearest: "\<bar>of_int (halfEven m) - m\<bar> \<le> 1 / 2"
proof -
  have "of_int \<lfloor>m\<rfloor> \<le> m" "m < of_int \<lfloor>m\<rfloor> + 1"
    by linarith+
  then show ?thesis
    unfolding halfEven_def Let_def by (auto simp: abs_le_iff)
qed

lemma roundToDouble_nearest:
  assumes "x \<noteq> 0"
  shows "\<exists>n. roundToDouble x = of_int n * power_int 2 (exponent x - 52)
           \<and> \<bar>of_int n - x / power_int 2 (exponent x - 52)\<bar> \<le> 1 / 2"
  using assms halfEven_nearest [of "x / power_int 2 (exponent x - 52)"]
  by (auto simp: roundToDouble_def Let_def)

section \<open>Properties of the remapper\<close>

lemma foldl_pushSubtitle:
  "foldl (pushSubtitle clip) st es =
     st\<lparr>remapped := remapped st @
            map (\<lambda>(i, e). emit (i, currentOffset st, clip, e))
              (enumerate (RemapState.index st - 1) es),
        RemapState.index := RemapState.index st + length es\<rparr>"
  if "0 < RemapState.index st"
  using that
proof (induction es arbitrary: st)
  case Nil
  then show ?case by simp
next
  case (Cons e es)
  have idx: "0 < RemapState.index (pushSubtitle clip st e)"
    by (simp add: pushSubtitle_def Let_def)
  show ?case
    using Cons.prems
    by (simp add: Cons.IH [OF idx])
       (simp add: pushSubtitle_def Let_def emit_def)
qed

lemma enumerate_map_snd:
  "enumerate n (map f xs) = map (\<lambda>(i, x). (i, f x)) (enumerate n xs)"
  by (induction xs arbitrary: n) simp_all

lemma clipContribution_append:
  "k < length clips \<Longrightarrow>
     clipContribution (clips @ [c]) episodeSubtitles k = clipContribution clips episodeSubtitles k"
  by (simp add: clipContribution_def nth_append)

lemma contributions_snoc:
  "contributions (clips @ [c]) episodeSubtitles =
     contributions clips episodeSubtitles
       @ clipContribution (clips @ [c]) episodeSubtitles (length clips)"
proof -
  have eq: "map (clipContribution (clips @ [c]) episodeSubtitles) [0..<length clips] =
        map (clipContribution clips episodeSubtitles) [0..<length clips]"
    by (rule map_cong) (simp_all add: clipContribution_append)
  show ?thesis
    by (simp add: contributions_def eq)
qed

lemma calculateTotalDuration_snoc:
  "calculateTotalDuration (clips @ [c]) =
     calculateTotalDuration clips + (ClipDefinition.endTime c - ClipDefinition.startTime c)"
  by (simp add: calculateTotalDuration_def)

lemma remapLoop_state:
  "remapLoop clips episodeSubtitles =
     \<lparr>remapped = map emit (enumerate 0 (contributions clips episodeSubtitles)),
      currentOffset = calculateTotalDuration clips,
      RemapState.index = Suc (length (contributions clips episodeSubtitles))\<rparr>"
proof (induction clips rule: rev_induct)
  case Nil
  show ?case
    by (simp add: remapLoop_def contributions_def calculateTotalDuration_def)
next
  case (snoc c clips)
  let ?st = "remapLoop clips episodeSubtitles"
  let ?sel = "[entry \<leftarrow> entriesOf episodeSubtitles c.
                 SubtitleEntry.startTime entry \<ge> ClipDefinition.startTime c
                 \<and> SubtitleEntry.endTime entry \<le> ClipDefinition.endTime c]"
  have step: "remapLoop (clips @ [c]) episodeSubtitles = remapClip episodeSubtitles ?st c"
    by (simp add: remapLoop_def)
  have pos: "0 < RemapState.index ?st"
    by (simp add: snoc.IH)
  have last: "clipContribution (clips @ [c]) episodeSubtitles (length clips) =
                map (\<lambda>entry. (calculateTotalDuration clips, c, entry)) ?sel"
    by (simp add: clipContribution_def)
  have inner: "foldl (pushSubtitle c) ?st ?sel =
     ?st\<lparr>remapped := remapped ?st @
            map (\<lambda>(i, e). emit (i, currentOffset ?st, c, e))
              (enumerate (RemapState.index ?st - 1) ?sel),
        RemapState.index := RemapState.index ?st + length ?sel\<rparr>"
    by (rule foldl_pushSubtitle [OF pos])
  show ?case
    unfolding step remapClip_def Let_def inner
    by (simp add: snoc.IH contributions_snoc last calculateTotalDuration_snoc
          enumerate_append_eq enumerate_map_snd case_prod_unfold comp_def)
qed

lemma remap_refines:
  "remapSubtitlesToClips clips episodeSubtitles =
     map emit (enumerate 0 (contributions clips episodeSubtitles))"
  by (simp add: remapSubtitlesToClips_def remapLoop_state)


lemma clipContribution_iff:
  "(off, clip, entry) \<in> set (clipContribution clips episodeSubtitles k) \<longleftrightarrow>
     off = calculateTotalDuration (take k clips) \<and> clip = clips ! k
     \<and> entry \<in> set (entriesOf episodeSubtitles (clips ! k))
     \<and> SubtitleEntry.startTime entry \<ge> ClipDefinition.startTime (clips ! k)
     \<and> SubtitleEntry.endTime entry \<le> ClipDefinition.endTime (clips ! k)"
  by (auto simp: clipContribution_def)

text \<open>
  C1. The remapper emits, clip after clip in list order, one subtitle for each entry of the
  clip's episode with \<open>entry.startTime \<ge> clip.startTime\<close> and
  \<open>entry.endTime \<le> clip.endTime\<close>, in the order of the episode's entries, and for no other
  entry: an entry that starts before the clip or ends after it is not in the clip's
  contribution. The emitted subtitle has
  \<open>startTime = outputOffset + (entry.startTime - clip.startTime)\<close> and
  \<open>endTime = outputOffset + (entry.endTime - clip.startTime)\<close>, where \<open>outputOffset\<close> is
  the total duration of the clips before this one, and the indices of the whole output are
  1, 2, 3, ... without a reset between clips. No law of arithmetic is used.
\<close>

theorem remap_selects_contained_entries:
  fixes clips :: "'n::{zero,plus,minus,linorder} ClipDefinition list"
  shows "remapSubtitlesToClips clips episodeSubtitles =
           map emit (enumerate 0 (contributions clips episodeSubtitles))
       \<and> (\<forall>k<length clips. \<forall>off clip entry.
            (off, clip, entry) \<in> set (clipContribution clips episodeSubtitles k) \<longleftrightarrow>
              off = calculateTotalDuration (take k clips) \<and> clip = clips ! k
              \<and> entry \<in> set (entriesOf episodeSubtitles (clips ! k))
              \<and> SubtitleEntry.startTime entry \<ge> ClipDefinition.startTime (clips ! k)
              \<and> SubtitleEntry.endTime entry \<le> ClipDefinition.endTime (clips ! k))
       \<and> (\<forall>k<length clips. \<forall>off entry.
            SubtitleEntry.startTime entry < ClipDefinition.startTime (clips ! k)
            \<or> SubtitleEntry.endTime entry > ClipDefinition.endTime (clips ! k) \<longrightarrow>
              (off, clips ! k, entry) \<notin> set (clipContribution clips episodeSubtitles k))
       \<and> map RemappedSubtitle.index (remapSubtitlesToClips clips episodeSubtitles) =
           [1..<Suc (length (remapSubtitlesToClips clips episodeSubtitles))]"
proof (intro conjI allI impI)
  show "remapSubtitlesToClips clips episodeSubtitles =
          map emit (enumerate 0 (contributions clips episodeSubtitles))"
    by (rule remap_refines)
next
  fix k and off :: 'n and clip :: "'n ClipDefinition" and entry :: "'n SubtitleEntry"
  show "(off, clip, entry) \<in> set (clipContribution clips episodeSubtitles k) \<longleftrightarrow>
          off = calculateTotalDuration (take k clips) \<and> clip = clips ! k
          \<and> entry \<in> set (entriesOf episodeSubtitles (clips ! k))
          \<and> SubtitleEntry.startTime entry \<ge> ClipDefinition.startTime (clips ! k)
          \<and> SubtitleEntry.endTime entry \<le> ClipDefinition.endTime (clips ! k)"
    by (rule clipContribution_iff)
next
  fix k and off :: 'n and entry :: "'n SubtitleEntry"
  assume "SubtitleEntry.startTime entry < ClipDefinition.startTime (clips ! k)
          \<or> SubtitleEntry.endTime entry > ClipDefinition.endTime (clips ! k)"
  then show "(off, clips ! k, entry) \<notin> set (clipContribution clips episodeSubtitles k)"
    by (auto simp: clipContribution_iff)
next
  have "map RemappedSubtitle.index (map emit (enumerate 0 xs)) = [1..<Suc (length xs)]"
    for xs :: "('n \<times> 'n ClipDefinition \<times> 'n SubtitleEntry) list"
  proof (induction xs rule: rev_induct)
    case Nil
    show ?case by simp
  next
    case (snoc x xs)
    then show ?case
      by (simp add: enumerate_append_eq emit_def case_prod_unfold)
  qed
  then show "map RemappedSubtitle.index (remapSubtitlesToClips clips episodeSubtitles) =
               [1..<Suc (length (remapSubtitlesToClips clips episodeSubtitles))]"
    by (simp add: remap_refines)
qed


lemmas remap_eval =
  contributions_def clipContribution_def entriesOf_def calculateTotalDuration_def emit_def
  str_def upt_rec

theorem remap_selects_contained_entries_witness:
  "remapSubtitlesToClips testClips testEpisodeSubtitles =
     [\<lparr>RemappedSubtitle.index = 1, RemappedSubtitle.startTime = 2,
       RemappedSubtitle.endTime = 5, RemappedSubtitle.text' = str ''Sub 1'',
       originalEpisodeId = str ''S01E01'', originalStartTime = 12\<rparr>,
      \<lparr>RemappedSubtitle.index = 2, RemappedSubtitle.startTime = 12,
       RemappedSubtitle.endTime = 18, RemappedSubtitle.text' = str ''Sub 2'',
       originalEpisodeId = str ''S01E02'', originalStartTime = 32\<rparr>]
   \<and> SubtitleEntry.endTime testNotIncluded > ClipDefinition.endTime (testClips ! 0)
   \<and> (0, testClips ! 0, testNotIncluded)
        \<notin> set (clipContribution testClips testEpisodeSubtitles 0)"
proof -
  note inst = remap_selects_contained_entries [of testClips testEpisodeSubtitles]
  have out: "remapSubtitlesToClips testClips testEpisodeSubtitles =
               map emit (enumerate 0 (contributions testClips testEpisodeSubtitles))"
    using inst by blast
  have late: "SubtitleEntry.endTime testNotIncluded > ClipDefinition.endTime (testClips ! 0)"
    by (simp add: testClips_def testNotIncluded_def)
  have "0 < length testClips"
    by (simp add: testClips_def)
  with inst late have excl: "(0, testClips ! 0, testNotIncluded)
        \<notin> set (clipContribution testClips testEpisodeSubtitles 0)"
    by blast
  show ?thesis
    unfolding out
    using late excl
    by (simp add: testClips_def testEpisodeSubtitles_def testNotIncluded_def testSub1_def
          testSub2_def remap_eval)
qed

lemma remap_nth:
  "j < length (contributions clips episodeSubtitles) \<Longrightarrow>
     remapSubtitlesToClips clips episodeSubtitles ! j =
       emit (j, contributions clips episodeSubtitles ! j)"
  by (simp add: remap_refines nth_enumerate_eq)

lemma remap_length:
  "length (remapSubtitlesToClips clips episodeSubtitles) =
     length (contributions clips episodeSubtitles)"
  by (simp add: remap_refines)

lemma contributions_source:
  assumes "j < length (contributions clips episodeSubtitles)"
  shows "\<exists>k<length clips. contributions clips episodeSubtitles ! j
            \<in> set (clipContribution clips episodeSubtitles k)"
proof -
  have "contributions clips episodeSubtitles ! j \<in> set (contributions clips episodeSubtitles)"
    using assms by simp
  then show ?thesis
    by (auto simp: contributions_def)
qed

text \<open>
  C9, amended. The subtitle emitted for a selected entry records where it comes from:
  \<open>originalEpisodeId\<close> is the clip's \<open>episodeId\<close> and \<open>originalStartTime\<close> the
  entry's \<open>startTime\<close>, whatever the arithmetic. In exact arithmetic (the numbers form
  an abelian group) it lasts as long as the entry:
  \<open>newEnd - newStart = entry.endTime - entry.startTime\<close>.
\<close>

theorem remap_preserves_duration:
  fixes clips :: "'n::{zero,plus,minus,ord} ClipDefinition list"
    and clips' :: "'m::{ab_group_add,ord} ClipDefinition list"
  shows "length (remapSubtitlesToClips clips episodeSubtitles) =
           length (contributions clips episodeSubtitles)
       \<and> (\<forall>j<length (contributions clips episodeSubtitles).
            case contributions clips episodeSubtitles ! j of (outputOffset, clip, entry) \<Rightarrow>
              (let r = remapSubtitlesToClips clips episodeSubtitles ! j in
                 originalEpisodeId r = ClipDefinition.episodeId clip
                 \<and> originalStartTime r = SubtitleEntry.startTime entry))
       \<and> (\<forall>j<length (contributions clips' episodeSubtitles').
            case contributions clips' episodeSubtitles' ! j of (outputOffset, clip, entry) \<Rightarrow>
              (let r = remapSubtitlesToClips clips' episodeSubtitles' ! j in
                 RemappedSubtitle.endTime r - RemappedSubtitle.startTime r =
                   SubtitleEntry.endTime entry - SubtitleEntry.startTime entry))"
  by (simp add: remap_length remap_nth emit_def split: prod.splits)

theorem remap_preserves_duration_witness:
  "contributions testClips testEpisodeSubtitles =
     [(0, testClips ! 0, testSub1), (10, testClips ! 1, testSub2)]
   \<and> RemappedSubtitle.endTime (remapSubtitlesToClips testClips testEpisodeSubtitles ! 1)
       - RemappedSubtitle.startTime (remapSubtitlesToClips testClips testEpisodeSubtitles ! 1)
       = SubtitleEntry.endTime testSub2 - SubtitleEntry.startTime testSub2
   \<and> originalEpisodeId (remapSubtitlesToClips testClips testEpisodeSubtitles ! 1) = str ''S01E02''
   \<and> originalStartTime (remapSubtitlesToClips testClips testEpisodeSubtitles ! 1) = 32"
proof -
  have c: "contributions testClips testEpisodeSubtitles =
             [(0, testClips ! 0, testSub1), (10, testClips ! 1, testSub2)]"
    by (simp add: testClips_def testEpisodeSubtitles_def testNotIncluded_def testSub1_def
          testSub2_def remap_eval)
  then have l: "1 < length (contributions testClips testEpisodeSubtitles)"
    by simp
  have e: "SubtitleEntry.startTime testSub2 = 32"
          "ClipDefinition.episodeId (testClips ! 1) = str ''S01E02''"
    by (simp_all add: testClips_def testSub2_def)
  note inst = remap_preserves_duration
                [of testClips testEpisodeSubtitles testClips testEpisodeSubtitles]
  note origin = inst [THEN conjunct2, THEN conjunct1, rule_format, OF l]
  note duration = inst [THEN conjunct2, THEN conjunct2, rule_format, OF l]
  from origin duration show ?thesis
    unfolding c using e by (simp add: Let_def)
qed

text \<open>
  C9 as stated fails in the arithmetic of the program: after a first clip of 10 s, the
  entry from 0.1 s to 0.3 s is emitted from 10.1 to 10.3, and the difference of these two
  binary64 numbers is not the binary64 difference of 0.3 and 0.1.
\<close>

theorem remap_duration_counterexample:
  "remapSubtitlesToClips roundingClips [str ''S01E02'' \<mapsto> [roundingEntry]] =
     [\<lparr>RemappedSubtitle.index = 1,
       RemappedSubtitle.startTime = Double (5685794529555251 / 562949953421312),
       RemappedSubtitle.endTime = Double (2899192260119757 / 281474976710656),
       RemappedSubtitle.text' = str ''Hello'',
       originalEpisodeId = str ''S01E02'',
       originalStartTime = decimalLiteral (1 / 10)\<rparr>]
   \<and> Double (2899192260119757 / 281474976710656) - Double (5685794529555251 / 562949953421312)
       = Double (112589990684263 / 562949953421312)
   \<and> SubtitleEntry.endTime roundingEntry - SubtitleEntry.startTime roundingEntry
       = Double (7205759403792793 / 36028797018963968)
   \<and> Double (112589990684263 / 562949953421312) \<noteq> Double (7205759403792793 / 36028797018963968)"
  by code_simp

lemma starts_emit:
  "map (\<lambda>x. RemappedSubtitle.startTime (emit x)) (enumerate n xs) =
     map (\<lambda>(off, clip, entry). off + (SubtitleEntry.startTime entry - ClipDefinition.startTime clip)) xs"
  by (induction xs arbitrary: n) (simp_all add: emit_def case_prod_unfold)

lemma starts_contributions:
  "map RemappedSubtitle.startTime (remapSubtitlesToClips clips episodeSubtitles) =
     map (\<lambda>(off, clip, entry). off + (SubtitleEntry.startTime entry - ClipDefinition.startTime clip))
       (contributions clips episodeSubtitles)"
  by (simp add: remap_refines comp_def starts_emit)

lemma block_sorted:
  fixes T :: "'n::linordered_ab_group_add"
  assumes "sorted_wrt (\<lambda>a b. SubtitleEntry.startTime a \<le> SubtitleEntry.startTime b) es"
  shows "sorted (map (\<lambda>e. T + (SubtitleEntry.startTime e - s)) (filter P es))"
proof -
  have "sorted_wrt (\<lambda>a b. SubtitleEntry.startTime a \<le> SubtitleEntry.startTime b) (filter P es)"
    using assms by (rule sorted_wrt_filter)
  then show ?thesis
    by (simp add: sorted_wrt_map sorted_wrt_mono_rel[of _ "\<lambda>a b. SubtitleEntry.startTime a \<le> SubtitleEntry.startTime b"])
qed

lemma starts_invariant:
  fixes clips :: "'n::linordered_ab_group_add ClipDefinition list"
  assumes "validSubtitles episodeSubtitles"
  shows "validClips clips \<Longrightarrow>
     sorted (map RemappedSubtitle.startTime (remapSubtitlesToClips clips episodeSubtitles))
     \<and> (\<forall>x\<in>set (map RemappedSubtitle.startTime (remapSubtitlesToClips clips episodeSubtitles)).
            x \<le> calculateTotalDuration clips)"
proof (induction clips rule: rev_induct)
  case Nil
  show ?case by (simp add: starts_contributions contributions_def)
next
  case (snoc c clips)
  let ?T = "calculateTotalDuration clips"
  let ?es = "entriesOf episodeSubtitles c"
  let ?P = "\<lambda>entry. SubtitleEntry.startTime entry \<ge> ClipDefinition.startTime c
                 \<and> SubtitleEntry.endTime entry \<le> ClipDefinition.endTime c"
  let ?f = "\<lambda>e. ?T + (SubtitleEntry.startTime e - ClipDefinition.startTime c)"
  have ves: "validEntries ?es \<and> inTimeOrder ?es"
    using assms
    by (auto simp: entriesOf_def validSubtitles_def validEntries_def inTimeOrder_def ran_def
          split: option.splits)
  have vc: "validClips clips" and c: "ClipDefinition.startTime c \<le> ClipDefinition.endTime c"
    using snoc.prems by (simp_all add: validClips_def)
  note IH = snoc.IH [OF vc]
  have split: "map RemappedSubtitle.startTime (remapSubtitlesToClips (clips @ [c]) episodeSubtitles) =
     map RemappedSubtitle.startTime (remapSubtitlesToClips clips episodeSubtitles)
       @ map ?f (filter ?P ?es)"
    by (simp add: starts_contributions contributions_snoc clipContribution_def comp_def)
  have blk: "sorted (map ?f (filter ?P ?es))"
    using ves by (intro block_sorted) (simp add: inTimeOrder_def)
  have lo: "?T \<le> ?f e" if "e \<in> set (filter ?P ?es)" for e
    using that by simp
  have hi: "?f e \<le> calculateTotalDuration (clips @ [c])" if "e \<in> set (filter ?P ?es)" for e
  proof -
    have "SubtitleEntry.startTime e \<le> SubtitleEntry.endTime e"
      using that ves by (simp add: validEntries_def)
    with that have "SubtitleEntry.startTime e \<le> ClipDefinition.endTime c" by auto
    then show ?thesis by (simp add: calculateTotalDuration_snoc)
  qed
  have old: "x \<le> calculateTotalDuration (clips @ [c])"
    if "x \<in> set (map RemappedSubtitle.startTime (remapSubtitlesToClips clips episodeSubtitles))" for x
  proof -
    have "x \<le> ?T" using IH that by blast
    also have "?T \<le> calculateTotalDuration (clips @ [c])"
      using c by (simp add: calculateTotalDuration_snoc)
    finally show ?thesis .
  qed
  have cross: "x \<le> y"
    if "x \<in> set (map RemappedSubtitle.startTime (remapSubtitlesToClips clips episodeSubtitles))"
      and "y \<in> set (map ?f (filter ?P ?es))" for x y
  proof -
    have "x \<le> ?T" using IH that(1) by blast
    moreover have "?T \<le> y" using that(2) lo by auto
    ultimately show ?thesis by simp
  qed
  show ?case
    unfolding split
    using IH blk cross old hi
    by (auto simp: sorted_append)
qed

lemma ends_bound:
  fixes clips :: "'n::linordered_ab_group_add ClipDefinition list"
  assumes "j < length (contributions clips episodeSubtitles)"
    and "contributions clips episodeSubtitles ! j = (outputOffset, clip, entry)"
  shows "RemappedSubtitle.endTime (remapSubtitlesToClips clips episodeSubtitles ! j)
           \<le> outputOffset + (ClipDefinition.endTime clip - ClipDefinition.startTime clip)"
proof -
  obtain k where "(outputOffset, clip, entry) \<in> set (clipContribution clips episodeSubtitles k)"
    using contributions_source [OF assms(1)] assms(2) by auto
  then have "SubtitleEntry.endTime entry \<le> ClipDefinition.endTime clip"
    by (simp add: clipContribution_iff)
  then show ?thesis
    by (simp add: remap_nth [OF assms(1)] assms(2) emit_def)
qed

text \<open>
  C2, amended. In exact arithmetic: when every clip has \<open>startTime \<le> endTime\<close>, and every
  episode's entries are in time order and have \<open>startTime \<le> endTime\<close>, the start
  times of the output are non-decreasing. For any input, the end time of an emitted
  subtitle is at most the output offset in effect for its clip plus the clip's duration.
\<close>

theorem remap_monotone_for_sorted_entries:
  fixes clips :: "'n::linordered_ab_group_add ClipDefinition list"
  shows "(validClips clips \<and> validSubtitles episodeSubtitles \<longrightarrow>
            sorted (map RemappedSubtitle.startTime
                      (remapSubtitlesToClips clips episodeSubtitles)))
       \<and> (\<forall>j<length (contributions clips episodeSubtitles).
            case contributions clips episodeSubtitles ! j of (outputOffset, clip, entry) \<Rightarrow>
              RemappedSubtitle.endTime (remapSubtitlesToClips clips episodeSubtitles ! j)
                \<le> outputOffset + (ClipDefinition.endTime clip - ClipDefinition.startTime clip))"
proof (intro conjI impI)
  assume "validClips clips \<and> validSubtitles episodeSubtitles"
  then show "sorted (map RemappedSubtitle.startTime
                       (remapSubtitlesToClips clips episodeSubtitles))"
    using starts_invariant [of episodeSubtitles clips] by blast
next
  show "\<forall>j<length (contributions clips episodeSubtitles).
          case contributions clips episodeSubtitles ! j of (outputOffset, clip, entry) \<Rightarrow>
            RemappedSubtitle.endTime (remapSubtitlesToClips clips episodeSubtitles ! j)
              \<le> outputOffset + (ClipDefinition.endTime clip - ClipDefinition.startTime clip)"
    using ends_bound [of _ clips episodeSubtitles]
    by (auto split: prod.splits)
qed

theorem remap_monotone_for_sorted_entries_witness:
  "validClips testClips \<and> validSubtitles testEpisodeSubtitles
   \<and> sorted (map RemappedSubtitle.startTime (remapSubtitlesToClips testClips testEpisodeSubtitles))
   \<and> map RemappedSubtitle.startTime (remapSubtitlesToClips testClips testEpisodeSubtitles) = [2, 12]"
proof -
  have vc: "validClips testClips"
    by (simp add: validClips_def testClips_def)
  have ve: "validEntries es \<and> inTimeOrder es" if es: "es \<in> ran testEpisodeSubtitles" for es
  proof -
    from es have "\<exists>k. testEpisodeSubtitles k = Some es"
      unfolding ran_def by simp
    then obtain k where "testEpisodeSubtitles k = Some es" ..
    then have "length es \<le> 2 \<and> (\<forall>entry\<in>set es.
                 (SubtitleEntry.startTime entry, SubtitleEntry.endTime entry)
                   \<in> {(12, 15), (50, 55), (32, 38)})
               \<and> map SubtitleEntry.startTime es \<in> {[12, 50], [32]}"
      by (auto simp: testEpisodeSubtitles_def testNotIncluded_def testSub1_def testSub2_def
            split: if_splits)
    then show ?thesis
      by (cases es rule: list.exhaust; cases "tl es" rule: list.exhaust)
         (auto simp: validEntries_def inTimeOrder_def)
  qed
  then have vs: "validSubtitles testEpisodeSubtitles"
    by (simp add: validSubtitles_def)
  have "map RemappedSubtitle.startTime (remapSubtitlesToClips testClips testEpisodeSubtitles) = [2, 12]"
    by (simp add: remap_refines testClips_def testEpisodeSubtitles_def testNotIncluded_def
          testSub1_def testSub2_def remap_eval)
  with vc vs remap_monotone_for_sorted_entries [of testClips testEpisodeSubtitles]
  show ?thesis
    by simp
qed

text \<open>
  C2 as stated fails: the remapper keeps the order of the episode's entry list and does
  not sort, so two entries listed out of time order come out with decreasing start times.
\<close>

theorem remap_monotone_counterexample:
  "validClips unsortedClips \<and> validEntries unsortedEntries
   \<and> map RemappedSubtitle.startTime
        (remapSubtitlesToClips unsortedClips [str ''S01E01'' \<mapsto> unsortedEntries]) = [5, 1]
   \<and> \<not> sorted (map RemappedSubtitle.startTime
        (remapSubtitlesToClips unsortedClips [str ''S01E01'' \<mapsto> unsortedEntries]))"
  by (simp add: remap_refines remap_eval unsortedClips_def unsortedEntries_def validClips_def
        validEntries_def)

section \<open>Properties of the overall progress\<close>

lemma relevantStages_cases:
  "relevantStages job = [pending, validating, parsing, analyzing, generating_clips, processing_video,
             generating_srt, completed] \<and> mode (config job) = A
   \<or> relevantStages job = stages \<and> mode (config job) = B"
  by (cases "mode (config job)") (simp_all add: relevantStages_def stages_def)



text \<open>
  C10. A job whose status is \<open>failed\<close> has overall progress 0 whatever its
  \<open>stageProgress\<close>: \<open>failed\<close> is not in the stage list, the index lookup gives
  \<open>-1\<close>, and the function returns 0. No job reaches the branch that returns
  \<open>job.progress.stageProgress\<close>, which needs an index other than \<open>-1\<close> together
  with the status \<open>failed\<close>.
\<close>

theorem failed_progress_is_zero:
  "(status job = failed \<longrightarrow>
      indexOf (relevantStages job) (status job) = - 1 \<and> calculateOverallProgress job = 0)
   \<and> \<not> (indexOf (relevantStages job) (status job) \<noteq> - 1 \<and> status job = failed)"
  using relevantStages_cases [of job]
  by (auto simp: calculateOverallProgress_def stages_def Let_def)

theorem failed_progress_is_zero_witness:
  "status (exampleJob\<lparr>status := failed\<rparr>) = failed
   \<and> stageProgress (progress (exampleJob\<lparr>status := failed\<rparr>)) = 100
   \<and> calculateOverallProgress (exampleJob\<lparr>status := failed\<rparr>) = 0"
  using failed_progress_is_zero [of "exampleJob\<lparr>status := failed\<rparr>"]
  by (simp add: exampleJob_def)

section \<open>Properties of extractEpisodeIdFromFilename\<close>

















section \<open>Properties of splitTextIntoChunks\<close>

lemmas split_eval = split_def splitLoop.simps matchAt_def matches.simps str_def isWhiteSpace_def
  sentenceBoundary_def commaBoundary_def trim_def

lemma matches_Seq_Nil:
  "(\<And>z. z \<in> set (matches r1 s x) \<Longrightarrow> matches r2 s z = []) \<Longrightarrow> matches (Seq r1 r2) s x = []"
  by (simp add: matches.simps)

lemma sentenceBoundary_no_match:
  assumes "\<forall>c\<in>set s. \<not> isWhiteSpace c"
  shows "matchAt sentenceBoundary s q = None"
proof -
  have "matches (Class isWhiteSpace) s z = []" for z
    using assms by (cases z) (simp add: matches.simps)
  then have inner: "matches (Seq (Class isWhiteSpace) (Star (Class isWhiteSpace))) s z = []" for z
    by (simp add: matches.simps(4))
  have "matches sentenceBoundary s (q, Map.empty) = []"
    unfolding sentenceBoundary_def by (rule matches_Seq_Nil) (rule inner)
  then show ?thesis
    by (simp add: matchAt_def)
qed

lemma commaBoundary_no_match:
  assumes "\<forall>c\<in>set s. c \<notin> set (str '','')"
  shows "matchAt commaBoundary s q = None"
proof -
  have "matches (Behind (\<lambda>c. c \<in> set (str '',''))) s (q, Map.empty) = []"
    using assms by (auto simp: matches.simps)
  then have "matches commaBoundary s (q, Map.empty) = []"
    by (simp add: commaBoundary_def matches.simps(4))
  then show ?thesis
    by (simp add: matchAt_def)
qed

lemma splitLoop_no_match:
  assumes "\<forall>q. matchAt r s q = None"
  shows "splitLoop r s p q = [drop p s]"
  using assms
proof (induction r s p q rule: splitLoop.induct)
  case (1 r s p q)
  then show ?case
    by (subst splitLoop.simps) simp
qed

lemma split_no_match:
  "\<forall>q. matchAt r s q = None \<Longrightarrow> split s r = [s]"
  by (auto simp: split_def splitLoop_no_match)

lemma trim_unchanged:
  assumes "s \<noteq> []" "\<not> isWhiteSpace (hd s)" "\<not> isWhiteSpace (last s)"
  shows "trim s = s"
proof -
  have "dropWhile isWhiteSpace s = s"
    using assms by (cases s) simp_all
  moreover have "dropWhile isWhiteSpace (rev s) = rev s"
    using assms by (cases "rev s") (simp_all add: last_rev [symmetric] hd_rev)
  ultimately show ?thesis
    by (simp add: trim_def)
qed

lemma chunks_of_unbroken_text:
  assumes long: "length text > MAX_CHARS_PER_CHUNK"
    and plain: "\<forall>c\<in>set text. \<not> isWhiteSpace c \<and> c \<notin> set (str '','')"
  shows "splitTextIntoChunks text = [text]"
proof -
  have ne: "text \<noteq> []"
    using long by auto
  have sentences: "split text sentenceBoundary = [text]"
    using plain by (intro split_no_match) (simp add: sentenceBoundary_no_match)
  have parts: "split text commaBoundary = [text]"
    using plain by (intro split_no_match) (simp add: commaBoundary_no_match)
  have tr: "trim text = text"
    using plain ne by (intro trim_unchanged) simp_all
  have "foldl addSentence \<lparr>chunks = [], currentChunk = []\<rparr> [text] =
          \<lparr>chunks = [], currentChunk = text\<rparr>"
    using long by (simp add: addSentence_def parts addPart_def Let_def)
  then show ?thesis
    using long ne by (simp add: splitTextIntoChunks_def sentences tr Let_def)
qed

text \<open>
  C6 fails on the code. A text longer than the ceiling with no white space and no comma is
  one sentence and one comma part; the part becomes \<open>currentChunk\<close> whole and is
  pushed whole, so the only chunk has 2001 characters for the ceiling of 2000.
\<close>

theorem chunk_exceeds_ceiling:
  "splitTextIntoChunks unbrokenText = [unbrokenText]
   \<and> length unbrokenText = 2001
   \<and> \<not> list_all (\<lambda>chunk. length chunk \<le> MAX_CHARS_PER_CHUNK) (splitTextIntoChunks unbrokenText)"
proof -
  have "splitTextIntoChunks unbrokenText = [unbrokenText]"
    by (rule chunks_of_unbroken_text)
       (simp_all add: unbrokenText_def MAX_CHARS_PER_CHUNK_def isWhiteSpace_def str_def)
  then show ?thesis
    by (simp add: unbrokenText_def MAX_CHARS_PER_CHUNK_def)
qed

section \<open>Properties of the timestamp functions\<close>

lemma replicate_numeral: "replicate (numeral k) x = x # replicate (pred_numeral k) x"
  by (simp add: numeral_eq_Suc)

lemmas time_eval = srtTimeToSeconds_def parseInt_def decimal_def padEnd_def nthOr_def str_def
  isWhiteSpace_def isDigit_def Let_def replicate_numeral

lemma isDigit_not_special:
  "isDigit c \<Longrightarrow> c \<noteq> of_char CHR '':'' \<and> c \<noteq> of_char CHR '','' \<and> c \<noteq> of_char CHR ''.''
     \<and> c \<noteq> of_char CHR ''-'' \<and> c \<noteq> of_char CHR ''+'' \<and> \<not> isWhiteSpace c"
  by (auto simp: isDigit_def isWhiteSpace_def)

lemma digits_not_special:
  assumes "list_all isDigit ds"
  shows "of_char CHR '':'' \<notin> set ds" "of_char CHR '','' \<notin> set ds" "of_char CHR ''.'' \<notin> set ds"
  using assms isDigit_not_special by (auto simp: list_all_iff)

lemma replaceFirst_append:
  "c \<notin> set a \<Longrightarrow> replaceFirst c d (a @ c # b) = a @ d # b"
  by (induction a) auto

lemma replaceFirst_absent:
  "c \<notin> set s \<Longrightarrow> replaceFirst c d s = s"
  by (induction s) auto

lemma splitOn_nonempty: "splitOn c s \<noteq> []"
  by (induction s) (auto split: list.splits)

lemma splitOn_none: "c \<notin> set a \<Longrightarrow> splitOn c a = [a]"
  by (induction a) auto

lemma splitOn_append:
  "c \<notin> set a \<Longrightarrow> splitOn c (a @ c # b) = a # splitOn c b"
  by (induction a) auto

lemma length_splitOn: "length (splitOn c s) = Suc (count_list s c)"
  by (induction s) (auto split: list.splits simp: splitOn_nonempty)

lemma count_replaceFirst:
  "x \<noteq> c \<Longrightarrow> x \<noteq> d \<Longrightarrow> count_list (replaceFirst c d s) x = count_list s x"
  by (induction s) auto

lemma parseInt_digits:
  assumes "ds \<noteq> []" "list_all isDigit ds"
  shows "parseInt ds = Num (real (decimal ds))"
proof -
  have c: "isDigit (hd ds)"
    using assms by (cases ds) auto
  have dw: "dropWhile isWhiteSpace ds = ds"
    using assms(1) c isDigit_not_special by (cases ds) auto
  have tw: "takeWhile isDigit ds = ds"
    using assms(2) by (simp add: list_all_iff)
  have sign: "hd ds \<noteq> 45" "hd ds \<noteq> 43"
    using isDigit_not_special [OF c] by simp_all
  show ?thesis
    unfolding parseInt_def Let_def dw
    by (simp add: sign tw assms(1))
qed

lemma parse_fields:
  assumes H: "H \<noteq> []" "list_all isDigit H"
    and M: "M \<noteq> []" "list_all isDigit M"
    and S: "S \<noteq> []" "list_all isDigit S"
    and F: "3 \<le> length F" "list_all isDigit F"
    and sep: "sep = of_char CHR '','' \<or> sep = of_char CHR ''.''"
  shows "srtTimeToSeconds (H @ str '':'' @ M @ str '':'' @ S @ sep # F) =
           Inr (Num (real (decimal H) * 3600 + real (decimal M) * 60 + real (decimal S)
                     + real (decimal F) / 1000))"
proof -
  let ?t = "H @ str '':'' @ M @ str '':'' @ S @ sep # F"
  have t: "?t = (H @ 58 # M @ 58 # S) @ sep # F"
    by (simp add: str_def)
  have sep': "sep = 44 \<or> sep = 46"
    using sep by simp
  have no: "58 \<notin> set H" "58 \<notin> set M" "58 \<notin> set S" "58 \<notin> set F"
           "44 \<notin> set H" "44 \<notin> set M" "44 \<notin> set S" "44 \<notin> set F"
           "46 \<notin> set S" "46 \<notin> set F"
    using digits_not_special H M S F by simp_all
  have norm: "replaceFirst 44 46 ?t = H @ 58 # M @ 58 # S @ 46 # F"
  proof (cases "sep = 44")
    case True
    have "44 \<notin> set (H @ 58 # M @ 58 # S)"
      using no by simp
    from replaceFirst_append [OF this] True show ?thesis
      unfolding t by simp
  next
    case False
    then have "44 \<notin> set ?t"
      using no sep' by (simp add: str_def)
    then have "replaceFirst 44 46 ?t = ?t"
      by (rule replaceFirst_absent)
    then show ?thesis using sep' False by (simp add: str_def)
  qed
  have "58 \<notin> set (S @ 46 # F)"
    using no by simp
  then have last: "splitOn 58 (S @ 46 # F) = [S @ 46 # F]"
    by (rule splitOn_none)
  have parts: "splitOn 58 (H @ 58 # M @ 58 # S @ 46 # F) = [H, M, S @ 46 # F]"
    using splitOn_append [of 58 H "M @ 58 # S @ 46 # F"] splitOn_append [of 58 M "S @ 46 # F"]
      last no by simp
  have secondsParts: "splitOn 46 (S @ 46 # F) = [S, F]"
    using splitOn_append [of 46 S F] splitOn_none [of 46 F] no by simp
  have F': "F \<noteq> []" "padEnd 3 (str ''0'') F = F"
    using F by (auto simp: padEnd_def)
  have "srtTimeToSeconds ?t =
          Inr (parseInt H * Num 3600 + parseInt M * Num 60 + parseInt S
               + parseInt (padEnd 3 (str ''0'') F) / Num 1000)"
    unfolding srtTimeToSeconds_def Let_def
    by (simp add: norm parts secondsParts nthOr_def)
  then show ?thesis
    by (simp add: parseInt_digits H M S F F')
qed

lemma parse_wellFormed:
  assumes "wellFormedTimestamp t"
  shows "srtTimeToSeconds t = Inr (Num (timestampValue t))"
proof -
  from assms have len: "length t = 12"
    by (simp add: wellFormedTimestamp_def)
  then obtain a0 a1 a2 a3 a4 a5 a6 a7 a8 a9 a10 a11
    where t: "t = [a0, a1, a2, a3, a4, a5, a6, a7, a8, a9, a10, a11]"
    by (auto simp: eval_nat_numeral length_Suc_conv)
  have shape: "t = [a0, a1] @ str '':'' @ [a3, a4] @ str '':'' @ [a6, a7] @ a8 # [a9, a10, a11]"
    using assms unfolding t by (simp add: wellFormedTimestamp_def str_def)
  have "srtTimeToSeconds t =
          Inr (Num (real (decimal [a0, a1]) * 3600 + real (decimal [a3, a4]) * 60
                    + real (decimal [a6, a7]) + real (decimal [a9, a10, a11]) / 1000))"
    unfolding shape
    using assms unfolding t
    by (intro parse_fields) (simp_all add: wellFormedTimestamp_def)
  then show ?thesis
    by (simp add: timestampValue_def t)
qed

lemma error_iff_colons:
  "(\<exists>e. srtTimeToSeconds t = Inl e) \<longleftrightarrow> count_list t (of_char CHR '':'') \<noteq> 2"
proof -
  have "length (splitOn 58 (replaceFirst 44 46 t)) = Suc (count_list t 58)"
    by (simp add: length_splitOn count_replaceFirst)
  then show ?thesis
    by (auto simp: srtTimeToSeconds_def Let_def)
qed

text \<open>
  C5, amended. \<open>srtTimeToSeconds\<close> returns \<open>h*3600 + m*60 + s + ms/1000\<close> for every
  string of the form \<open>HH:MM:SS\<close>, then \<open>,\<close> or \<open>.\<close>, then three digits. It
  raises its error exactly for the strings that do not have exactly two colons (the
  split at \<open>:\<close> does not give three fields), with the message
  \<open>Invalid SRT timestamp format: \<close> followed by the string. Every other string is
  accepted, well-formed or not.
\<close>

theorem parse_timestamp:
  "(wellFormedTimestamp t \<longrightarrow> srtTimeToSeconds t = Inr (Num (timestampValue t)))
   \<and> ((\<exists>e. srtTimeToSeconds t = Inl e) \<longleftrightarrow> count_list t (of_char CHR '':'') \<noteq> 2)
   \<and> (\<forall>e. srtTimeToSeconds t = Inl e \<longrightarrow>
         e = Error (str ''Invalid SRT timestamp format: '' @ t))"
  using parse_wellFormed [of t] error_iff_colons [of t]
  by (auto simp: srtTimeToSeconds_def Let_def split: if_splits)

theorem parse_timestamp_witness:
  "wellFormedTimestamp (str ''01:30:45,500'')
   \<and> srtTimeToSeconds (str ''01:30:45,500'') = Inr (Num 5445.5)
   \<and> count_list (str ''00:00'') (of_char CHR '':'') = 1
   \<and> srtTimeToSeconds (str ''00:00'') = Inl (Error (str ''Invalid SRT timestamp format: 00:00''))"
proof -
  have wf: "wellFormedTimestamp (str ''01:30:45,500'')"
    by (simp add: wellFormedTimestamp_def str_def isDigit_def)
  have v: "timestampValue (str ''01:30:45,500'') = 5445.5"
    by (simp add: timestampValue_def str_def decimal_def)
  have c: "count_list (str ''00:00'') (of_char CHR '':'') = 1"
    by (simp add: str_def)
  from c parse_timestamp [of "str ''00:00''"]
  have "srtTimeToSeconds (str ''00:00'') = Inl (Error (str ''Invalid SRT timestamp format: 00:00''))"
    by (auto simp: str_def)
  with wf v c parse_timestamp [of "str ''01:30:45,500''"] show ?thesis
    by simp
qed

text \<open>
  C5 as stated fails: strings that are not of the form \<open>HH:MM:SS,mmm\<close> but have two
  colons raise nothing; they give a number, or \<open>NaN\<close>.
\<close>

theorem parse_timestamp_counterexample:
  "\<not> wellFormedTimestamp (str ''1:2:3'')
   \<and> srtTimeToSeconds (str ''1:2:3'') = Inr (Num 3723)
   \<and> \<not> wellFormedTimestamp (str ''a:b:c'')
   \<and> srtTimeToSeconds (str ''a:b:c'') = Inr NaN"
  by (simp add: wellFormedTimestamp_def time_eval)













end
